theory Spec2Isabelle
  imports Complex_Main "HOL-Library.Multiset"
begin

section \<open>Python values used by the simulation\<close>

text \<open>
  A Python \<open>str\<close> is a sequence of Unicode code points; it is modelled as a list of
  natural numbers, so that \<open>ord\<close> is the identity and code points above 255 exist.
  \<open>py\<close> turns an Isabelle string literal into such a text.
\<close>

type_synonym pystr = "nat list"

definition py :: "string \<Rightarrow> pystr" where
  "py s = map of_char s"

datatype py_error = ValueError | KeyError | SyntaxError | TypeError | UnicodeEncodeError

text \<open>
  The values \<open>ast.literal_eval\<close> can return and the messages are built from. A dict
  is the list of its items; a Python dict holds one item per key, and \<open>dict_get\<close>
  reads the first item of a key.
\<close>

datatype pyval =
    PStr pystr
  | PFloat real
  | PInt int
  | PBool bool
  | PNone
  | PList "pyval list"
  | PDict "(pyval \<times> pyval) list"

abbreviation K :: "string \<Rightarrow> pyval" where
  "K s \<equiv> PStr (py s)"

text \<open>\<open>msg.get(k)\<close>: \<open>None\<close> for a missing key.\<close>

definition dict_get :: "(pyval \<times> pyval) list \<Rightarrow> pyval \<Rightarrow> pyval option" where
  "dict_get msg k = map_of msg k"

text \<open>\<open>msg[k]\<close>: \<open>KeyError\<close> for a missing key.\<close>

definition subscript :: "(pyval \<times> pyval) list \<Rightarrow> pyval \<Rightarrow> py_error + pyval" where
  "subscript msg k = (case map_of msg k of None \<Rightarrow> Inl KeyError | Some v \<Rightarrow> Inr v)"

text \<open>
  The functions of Python's library that the program calls and whose code is not part
  of it: \<open>str\<close> on a message, \<open>ast.literal_eval\<close>, \<open>round(x, 2)\<close> and \<open>print\<close>.
  They are parameters of the model; every theorem holds for all of them.

  \<open>py_print\<close> stands for a call \<open>print(f"...")\<close>: it is given the values that the
  line interpolates, in their order, and returns \<open>None\<close> when the line was written and
  the exception otherwise. Formatting a value and writing to the console can both raise;
  a text with a lone surrogate, for one, raises \<open>UnicodeEncodeError\<close> on a console that
  encodes strictly.
\<close>

record builtins =
  py_str :: "pyval \<Rightarrow> pystr"
  literal_eval :: "pystr \<Rightarrow> py_error + pyval"
  round2 :: "real \<Rightarrow> real"
  py_print :: "pyval list \<Rightarrow> py_error option"

text \<open>
  What one call of \<open>broadcast\<close> or of \<open>process_message\<close> reads from the outside:
  the value of \<open>random.random()\<close> inside \<open>random.uniform\<close>, the clock
  \<open>time.time()\<close>, the standard normal variates behind the calls of \<open>random.gauss\<close>,
  and the text of \<open>time.strftime('%X')\<close>.
\<close>

record draws =
  uniform01 :: real
  now :: real
  normals :: "nat \<Rightarrow> real"
  strftime :: pystr

section \<open>Sensors\<close>

record VehicleSensors =
  name :: pystr
  speed :: real
  accel :: real
  braking :: bool
  hazard :: pystr

text \<open>\<open>VehicleSensors.__init__\<close>.\<close>

definition init_sensors :: "pystr \<Rightarrow> VehicleSensors" where
  "init_sensors n = \<lparr>name = n, speed = 25, accel = 0, braking = False, hazard = []\<rparr>"

text \<open>\<open>random.uniform(a, b)\<close> is \<open>a + (b - a) * random.random()\<close>.\<close>

definition uniform :: "real \<Rightarrow> real \<Rightarrow> real \<Rightarrow> real" where
  "uniform a b r = a + (b - a) * r"

text \<open>\<open>VehicleSensors.update\<close>; \<open>r\<close> is the value of \<open>random.random()\<close>.\<close>

definition update :: "bool \<Rightarrow> real \<Rightarrow> VehicleSensors \<Rightarrow> VehicleSensors" where
  "update brake r s =
     (let s1 = (if brake then s\<lparr>accel := - 8, braking := True\<rparr>
                else s\<lparr>accel := uniform (- (5 / 10)) (5 / 10) r, braking := False\<rparr>)
      in s1\<lparr>speed := max 0 (speed s1 + accel s1 * (1 / 10))\<rparr>)"

text \<open>A sequence of calls of \<open>update\<close>, each with its argument and its draw.\<close>

fun updates :: "(bool \<times> real) list \<Rightarrow> VehicleSensors \<Rightarrow> VehicleSensors" where
  "updates [] s = s"
| "updates ((brake, r) # calls) s = updates calls (update brake r s)"

text \<open>\<open>VehicleSensors.read_data\<close>; \<open>t\<close> is the clock.\<close>

definition read_data :: "builtins \<Rightarrow> real \<Rightarrow> VehicleSensors \<Rightarrow> pyval" where
  "read_data B t s =
     PDict [(K ''from'', PStr (name s)),
            (K ''timestamp'', PFloat t),
            (K ''speed_mps'', PFloat (round2 B (speed s))),
            (K ''accel_mps2'', PFloat (round2 B (accel s))),
            (K ''braking'', PBool (braking s)),
            (K ''hazard'', PStr (hazard s)),
            (K ''type'', K ''STATUS'')]"


section \<open>Signal codec\<close>

text \<open>
  A signal is the list of samples built by \<open>encode_message\<close>. Samples are Python floats;
  they are modelled as reals, which is exact for the comparison \<open>abs(val) > 1.5\<close>.
\<close>

type_synonym signal = "real list"

text \<open>
  \<open>format(n, "08b")\<close>: the binary digits of \<open>n\<close>, most significant first, padded
  with zeros on the left to a width of at least 8. A number above 255 gives more than
  8 digits. The digits are the characters \<open>0\<close> and \<open>1\<close>.
\<close>

fun bin_digits :: "nat \<Rightarrow> string" where
  "bin_digits n =
     (if n < 2 then [if n = 1 then CHR ''1'' else CHR ''0'']
      else bin_digits (n div 2) @ [if n mod 2 = 1 then CHR ''1'' else CHR ''0''])"

declare bin_digits.simps [simp del]

definition format_08b :: "nat \<Rightarrow> string" where
  "format_08b n = replicate (8 - length (bin_digits n)) CHR ''0'' @ bin_digits n"

text \<open>
  \<open>random.gauss(mu, sigma)\<close> returns \<open>mu + z * sigma\<close> for a standard normal variate
  \<open>z\<close>. The variates drawn during one call of \<open>encode_message\<close> are the sequence
  \<open>z\<close>, so the model is a function of the message and of the draws.
\<close>

definition gauss :: "real \<Rightarrow> real \<Rightarrow> real \<Rightarrow> real" where
  "gauss mu sigma z = mu + z * sigma"

text \<open>
  The loop \<open>for b in bits\<close> of \<open>encode_message\<close>; \<open>k\<close> counts the variates already
  consumed. Each bit draws \<open>base\<close> first and the spread second.
\<close>

fun encode_bits :: "(nat \<Rightarrow> real) \<Rightarrow> nat \<Rightarrow> string \<Rightarrow> signal" where
  "encode_bits z k [] = []"
| "encode_bits z k (b # bits) =
     (let base = gauss 0 1 (z k) in
      (if b = CHR ''1'' then base + gauss 0 3 (z (k + 1))
       else base + gauss 0 (2 / 10) (z (k + 1)))
      # encode_bits z (k + 2) bits)"

text \<open>
  \<open>encode_message\<close>: the bits of \<open>str(msg)\<close>, character by character, then the loop.
\<close>

definition bits_of :: "pystr \<Rightarrow> string" where
  "bits_of s = concat (map format_08b s)"

definition encode_message :: "builtins \<Rightarrow> (nat \<Rightarrow> real) \<Rightarrow> pyval \<Rightarrow> signal" where
  "encode_message B z msg = encode_bits z 0 (bits_of (py_str B msg))"

text \<open>
  \<open>int(c, 2)\<close> on a text of binary digits. Python raises \<open>ValueError\<close> on the empty
  text and on a text with a character that is no digit of base 2.
\<close>

definition binary :: "string \<Rightarrow> bool" where
  "binary c = list_all (\<lambda>d. d = CHR ''0'' \<or> d = CHR ''1'') c"

definition bin_value :: "string \<Rightarrow> nat" where
  "bin_value c = foldl (\<lambda>acc d. 2 * acc + (if d = CHR ''1'' then 1 else 0)) 0 c"

definition py_int2 :: "string \<Rightarrow> py_error + nat" where
  "py_int2 c = (if c \<noteq> [] \<and> binary c then Inr (bin_value c) else Inl ValueError)"

text \<open>\<open>chr(n)\<close> raises \<open>ValueError\<close> outside \<open>range(0x110000)\<close>.\<close>

definition py_chr :: "nat \<Rightarrow> py_error + nat" where
  "py_chr n = (if n < 1114112 then Inr n else Inl ValueError)"

text \<open>
  \<open>[bits[i:i+8] for i in range(0, len(bits), 8)]\<close>: \<open>range(0, n, 8)\<close> has
  \<open>(n + 7) div 8\<close> elements, the multiples of 8 below \<open>n\<close>.
\<close>

definition chars :: "string \<Rightarrow> string list" where
  "chars bits = map (\<lambda>j. take 8 (drop (8 * j) bits)) [0..<(length bits + 7) div 8]"

text \<open>
  \<open>"".join(chr(int(c, 2)) for c in chars if len(c) == 8)\<close>: the first exception
  ends the generator.
\<close>

fun join_chr :: "string list \<Rightarrow> py_error + pystr" where
  "join_chr [] = Inr []"
| "join_chr (c # cs) =
     (if length c = 8 then
        (case py_int2 c of
           Inl e \<Rightarrow> Inl e
         | Inr n \<Rightarrow>
             (case py_chr n of
                Inl e \<Rightarrow> Inl e
              | Inr ch \<Rightarrow>
                  (case join_chr cs of Inl e \<Rightarrow> Inl e | Inr s \<Rightarrow> Inr (ch # s))))
      else join_chr cs)"

text \<open>The classification loop of \<open>decode_message\<close>.\<close>

definition classify :: "signal \<Rightarrow> string" where
  "classify sig = map (\<lambda>val. if \<bar>val\<bar> > 15 / 10 then CHR ''1'' else CHR ''0'') sig"

text \<open>The body of the \<open>try\<close> block of \<open>decode_message\<close>.\<close>

definition decode_try :: "signal \<Rightarrow> py_error + pystr" where
  "decode_try sig = join_chr (chars (classify sig))"

text \<open>\<open>decode_message\<close>: any exception of the block gives the empty text.\<close>

definition decode_message :: "signal \<Rightarrow> pystr" where
  "decode_message sig = (case decode_try sig of Inl e \<Rightarrow> [] | Inr s \<Rightarrow> s)"


section \<open>Optical channel\<close>

text \<open>
  \<open>OpticalChannel\<close> holds a \<open>queue.Queue\<close>, whose \<open>put\<close> and \<open>get\<close> are atomic:
  the calls of all threads take effect one after the other. The queue is the list of the
  pending signals, oldest first. \<open>get(timeout=0.1)\<close> on a queue that stays empty raises
  \<open>queue.Empty\<close>, and \<open>receive\<close> returns \<open>None\<close>.
\<close>

record OpticalChannel =
  q :: "signal list"

definition transmit :: "signal \<Rightarrow> OpticalChannel \<Rightarrow> OpticalChannel" where
  "transmit encoded_msg ch = ch\<lparr>q := q ch @ [encoded_msg]\<rparr>"

definition receive :: "OpticalChannel \<Rightarrow> signal option \<times> OpticalChannel" where
  "receive ch = (case q ch of [] \<Rightarrow> (None, ch) | m # ms \<Rightarrow> (Some m, ch\<lparr>q := ms\<rparr>))"





section \<open>Vehicle, receiver and dispatcher\<close>

text \<open>
  A \<open>Vehicle\<close> owns its sensors; its receiver has the same name and points back to the
  vehicle, and all vehicles share one channel. A method of a vehicle or of its receiver
  therefore works on the vehicle and the channel.
\<close>

record Vehicle =
  vehicle_name :: pystr
  sensors :: VehicleSensors

type_synonym world = "Vehicle \<times> OpticalChannel"

text \<open>\<open>Vehicle.__init__\<close>.\<close>

definition init_vehicle :: "pystr \<Rightarrow> Vehicle" where
  "init_vehicle n = \<lparr>vehicle_name = n, sensors = init_sensors n\<rparr>"

text \<open>
  A call either returns or raises; in both cases the objects are in the state the call
  left them in.
\<close>

datatype 's outcome = Done 's | Raised py_error 's

text \<open>The message that \<open>broadcast\<close> sends when \<open>brake\<close> is true.\<close>

definition emergency_msg :: "pystr \<Rightarrow> pyval" where
  "emergency_msg n = PDict [(K ''from'', PStr n), (K ''type'', K ''EMERGENCY_BRAKE'')]"

text \<open>\<open>Vehicle.broadcast\<close>.\<close>

definition broadcast :: "builtins \<Rightarrow> draws \<Rightarrow> bool \<Rightarrow> world \<Rightarrow> world" where
  "broadcast B d brake w =
     (case w of (v, ch) \<Rightarrow>
        (let s' = update brake (uniform01 d) (sensors v);
             msg = read_data B (now d) s';
             msg = (if brake then emergency_msg (vehicle_name v) else msg);
             encoded = encode_message B (normals d) msg
         in (v\<lparr>sensors := s'\<rparr>, transmit encoded ch)))"

text \<open>\<open>Vehicle.emergency_brake\<close>.\<close>

definition emergency_brake :: "builtins \<Rightarrow> draws \<Rightarrow> world \<Rightarrow> world" where
  "emergency_brake B d w = broadcast B d True w"

text \<open>
  \<open>VehicleReceiver.process_message\<close>. Each branch evaluates the subscripts of its
  line, which raise \<open>KeyError\<close> for a missing key, and then prints the line, which can
  raise as well. In the second branch both come before \<open>emergency_brake\<close>: when one of
  them raises, the vehicle and the channel are as they were.
\<close>

definition process_message :: "builtins \<Rightarrow> draws \<Rightarrow> (pyval \<times> pyval) list \<Rightarrow> world \<Rightarrow> world outcome" where
  "process_message B d msg w =
     (case (if dict_get msg (K ''type'') = Some (K ''STATUS'')
            then (case subscript msg (K ''from'') of
                    Inl e \<Rightarrow> Some e
                  | Inr sender \<Rightarrow>
                      (case subscript msg (K ''speed_mps'') of
                         Inl e \<Rightarrow> Some e
                       | Inr sp \<Rightarrow> py_print B [PStr (vehicle_name (fst w)), sender, sp]))
            else None) of
        Some e \<Rightarrow> Raised e w
      | None \<Rightarrow>
          (if dict_get msg (K ''type'') = Some (K ''EMERGENCY_BRAKE'')
           then (case subscript msg (K ''from'') of
                   Inl e \<Rightarrow> Raised e w
                 | Inr sender \<Rightarrow>
                     (case py_print B [PStr (vehicle_name (fst w)), sender, PStr (strftime d)] of
                        Some e \<Rightarrow> Raised e w
                      | None \<Rightarrow> Done (emergency_brake B d w)))
           else Done w))"

text \<open>The \<open>try\<close> block of \<open>listen\<close>, without its handler.\<close>

definition listen_try :: "builtins \<Rightarrow> draws \<Rightarrow> pystr \<Rightarrow> world \<Rightarrow> world outcome" where
  "listen_try B d decoded w =
     (case literal_eval B decoded of
        Inl e \<Rightarrow> Raised e w
      | Inr msg \<Rightarrow> (case msg of PDict items \<Rightarrow> process_message B d items w | _ \<Rightarrow> Done w))"

text \<open>
  One iteration of the \<open>while True\<close> loop of \<open>VehicleReceiver.listen\<close>. \<open>Done\<close> means
  that the iteration reached the end of the loop body or its \<open>continue\<close>, so that the
  loop goes on with the next \<open>receive\<close>; \<open>Raised\<close> would leave the loop.
\<close>

definition listen_body :: "builtins \<Rightarrow> draws \<Rightarrow> world \<Rightarrow> world outcome" where
  "listen_body B d w =
     (case w of (v, ch) \<Rightarrow>
        (case receive ch of
           (None, ch') \<Rightarrow> Done (v, ch')
         | (Some signal, ch') \<Rightarrow>
             (let decoded = decode_message signal in
              if decoded \<noteq> [] then
                (case listen_try B d decoded (v, ch') of
                   Raised e w' \<Rightarrow> Done w'
                 | Done w' \<Rightarrow> Done w')
              else Done (v, ch'))))"

text \<open>
  The first \<open>n\<close> iterations of \<open>listen\<close>. Between two iterations the other threads
  run: \<open>env i\<close> is what they do to the vehicle and the channel after iteration \<open>i\<close>.
  The loop has no \<open>break\<close> and no \<open>return\<close>; only an exception can end it.
\<close>

fun listen :: "builtins \<Rightarrow> (nat \<Rightarrow> draws) \<Rightarrow> (nat \<Rightarrow> world \<Rightarrow> world) \<Rightarrow> nat \<Rightarrow> world \<Rightarrow> world outcome" where
  "listen B ds env 0 w = Done w"
| "listen B ds env (Suc n) w =
     (case listen_body B (ds 0) w of
        Raised e w' \<Rightarrow> Raised e w'
      | Done w' \<Rightarrow> listen B (\<lambda>i. ds (Suc i)) (\<lambda>i. env (Suc i)) n (env 0 w'))"

section \<open>A convoy for the examples\<close>

text \<open>
  Concrete values on which the theorems are evaluated: Python's text of an emergency
  message of a vehicle with a plain name, a parser that knows the texts of a few
  messages, a console that encodes strictly, and draws that give a sample 3 for a bit 1
  and 0.2 for a bit 0.
\<close>

definition demo_str :: "pyval \<Rightarrow> pystr" where
  "demo_str v =
     (case v of
        PDict [(PStr k1, PStr v1), (PStr k2, PStr v2)] \<Rightarrow>
          py ''{'' @ [39] @ k1 @ [39] @ py '': '' @ [39] @ v1 @ [39] @ py '', ''
            @ [39] @ k2 @ [39] @ py '': '' @ [39] @ v2 @ [39] @ py ''}''
      | _ \<Rightarrow> py ''None'')"

text \<open>The text of a dict with a type and no sender.\<close>

definition no_sender_text :: pystr where
  "no_sender_text =
     py ''{'' @ [39] @ py ''type'' @ [39] @ py '': '' @ [39] @ py ''EMERGENCY_BRAKE'' @ [39] @ py ''}''"

text \<open>
  The text \<open>{'from': '\ud800', 'type': 'EMERGENCY_BRAKE'}\<close>, with the escape written
  out in six ASCII characters (92 is the backslash), and the dict that
  \<open>ast.literal_eval\<close> reads from it: its sender is the single code point D800, a lone
  surrogate.
\<close>

definition surrogate_text :: pystr where
  "surrogate_text =
     py ''{'' @ [39] @ py ''from'' @ [39] @ py '': '' @ [39] @ [92] @ py ''ud800'' @ [39] @ py '', ''
       @ [39] @ py ''type'' @ [39] @ py '': '' @ [39] @ py ''EMERGENCY_BRAKE'' @ [39] @ py ''}''"

definition surrogate_msg :: "(pyval \<times> pyval) list" where
  "surrogate_msg = [(K ''from'', PStr [55296]), (K ''type'', K ''EMERGENCY_BRAKE'')]"

definition demo_literal_eval :: "pystr \<Rightarrow> py_error + pyval" where
  "demo_literal_eval s =
     (if s = demo_str (emergency_msg (py ''CarA'')) then Inr (emergency_msg (py ''CarA''))
      else if s = demo_str (emergency_msg (py ''CarB'')) then Inr (emergency_msg (py ''CarB''))
      else if s = no_sender_text then Inr (PDict [(K ''type'', K ''EMERGENCY_BRAKE'')])
      else if s = surrogate_text then Inr (PDict surrogate_msg)
      else if s = py ''7'' then Inr (PInt 7)
      else Inl SyntaxError)"

text \<open>
  A console that encodes strictly: \<open>print\<close> raises \<open>UnicodeEncodeError\<close> when one of
  the interpolated values is a text with a surrogate code point (D800 to DFFF), and
  writes the line otherwise.
\<close>

fun has_surrogate :: "pyval \<Rightarrow> bool" where
  "has_surrogate (PStr s) = list_ex (\<lambda>c. 55296 \<le> c \<and> c \<le> 57343) s"
| "has_surrogate _ = False"

definition demo_print :: "pyval list \<Rightarrow> py_error option" where
  "demo_print vals = (if list_ex has_surrogate vals then Some UnicodeEncodeError else None)"

definition demo_builtins :: builtins where
  "demo_builtins =
     \<lparr>py_str = demo_str, literal_eval = demo_literal_eval, round2 = (\<lambda>x. x),
      py_print = demo_print\<rparr>"

definition demo_draws :: draws where
  "demo_draws =
     \<lparr>uniform01 = 1 / 2, now = 0, normals = (\<lambda>k. if odd k then 1 else 0),
      strftime = py ''12:00:00''\<rparr>"

text \<open>The signal that \<open>encode_message\<close> builds from a text with these draws.\<close>

definition demo_signal :: "pystr \<Rightarrow> signal" where
  "demo_signal s = encode_bits (normals demo_draws) 0 (bits_of s)"

definition carB :: Vehicle where
  "carB = init_vehicle (py ''CarB'')"

definition empty_channel :: OpticalChannel where
  "empty_channel = \<lparr>q = []\<rparr>"

section \<open>Lemmas on the codec\<close>

subsection \<open>Groups of 8 bits\<close>

lemma chars_Nil: "chars [] = []" by (simp add: chars_def)

lemma upt_shift: "map f [0..<Suc m] = f 0 # map (\<lambda>j. f (Suc j)) [0..<m]"
proof -
  have "[0..<Suc m] = 0 # map Suc [0..<m]"
    by (simp only: upt_conv_Cons [of 0 "Suc m"] map_Suc_upt zero_less_Suc)
  then show ?thesis by (simp only: list.map map_map o_def)
qed

lemma range8_Suc: "0 < (n::nat) \<Longrightarrow> (n + 7) div 8 = Suc ((n - 8 + 7) div 8)"
proof (cases "8 \<le> n")
  case True
  then obtain m where "n = m + 8" by (metis le_add_diff_inverse2)
  then show ?thesis by simp
next
  case False
  assume "0 < n"
  with False have "n - 8 = 0" "8 \<le> n + 7" "n + 7 < 16" by simp_all
  then show ?thesis by (simp add: div_nat_eqI)
qed

lemma chars_rec: "bits \<noteq> [] \<Longrightarrow> chars bits = take 8 bits # chars (drop 8 bits)"
proof -
  assume ne: "bits \<noteq> []"
  then have n: "(length bits + 7) div 8 = Suc ((length bits - 8 + 7) div 8)"
    by (simp add: range8_Suc)
  have d: "\<And>j. drop (8 * Suc j) bits = drop (8 * j) (drop 8 bits)"
    by (simp add: add.commute)
  show ?thesis
    unfolding chars_def n upt_shift d by simp
qed

lemma chars_append8: "length g = 8 \<Longrightarrow> chars (g @ bits) = g # chars bits"
  by (subst chars_rec) auto

lemma chars_short: "bits \<noteq> [] \<Longrightarrow> length bits < 8 \<Longrightarrow> chars bits = [bits]"
  by (subst chars_rec) (auto simp: chars_Nil)

subsection \<open>Binary digits and their value\<close>

lemma binary_simps [simp]:
  "binary []" "binary (d # c) = ((d = CHR ''0'' \<or> d = CHR ''1'') \<and> binary c)"
  "binary (a @ b) = (binary a \<and> binary b)"
  by (auto simp: binary_def)

lemma binary_take: "binary c \<Longrightarrow> binary (take n c)"
  by (auto simp: binary_def list_all_iff dest: in_set_takeD)

lemma binary_drop: "binary c \<Longrightarrow> binary (drop n c)"
  by (auto simp: binary_def list_all_iff dest: in_set_dropD)

lemma binary_classify: "binary (classify sig)"
  by (auto simp: binary_def classify_def list_all_iff)

lemma foldl_bin_bound:
  "Suc (foldl (\<lambda>acc d. 2 * acc + (if d = CHR ''1'' then 1 else 0)) a c) \<le> 2 ^ length c * Suc a"
proof (induction c arbitrary: a)
  case Nil
  show ?case by simp
next
  case (Cons d c)
  have "Suc (foldl (\<lambda>acc d. 2 * acc + (if d = CHR ''1'' then 1 else 0)) (2 * a + (if d = CHR ''1'' then 1 else 0)) c)
        \<le> 2 ^ length c * Suc (2 * a + (if d = CHR ''1'' then 1 else 0))"
    by (rule Cons.IH)
  also have "\<dots> \<le> 2 ^ length c * (2 * Suc a)"
    by (intro mult_le_mono2) simp
  finally show ?case by (simp add: mult.assoc)
qed

lemma bin_value_bound: "bin_value c < 2 ^ length c"
  using foldl_bin_bound [of 0 c] by (simp add: bin_value_def)

lemma bin_value_byte: "length c = 8 \<Longrightarrow> bin_value c < 256"
  using bin_value_bound [of c] by simp

lemma join_chr_filter:
  "\<forall>c \<in> set cs. binary c \<Longrightarrow>
   join_chr cs = Inr (map bin_value (filter (\<lambda>c. length c = 8) cs))"
proof (induction cs)
  case Nil
  show ?case by simp
next
  case (Cons c cs)
  then have ih: "join_chr cs = Inr (map bin_value (filter (\<lambda>c. length c = 8) cs))"
    and b: "binary c" by simp_all
  show ?case
  proof (cases "length c = 8")
    case True
    then have "c \<noteq> []" by auto
    moreover have "bin_value c < 1114112" using bin_value_byte [OF True] by simp
    ultimately show ?thesis using True b ih by (simp add: py_int2_def py_chr_def)
  next
    case False
    then show ?thesis using ih by simp
  qed
qed

lemma binary_chars: "binary bits \<Longrightarrow> \<forall>c \<in> set (chars bits). binary c"
  by (auto simp: chars_def intro: binary_take binary_drop)

subsection \<open>What \<open>decode_message\<close> computes\<close>

lemma decode_try_Inr:
  "decode_try sig = Inr (map bin_value (filter (\<lambda>c. length c = 8) (chars (classify sig))))"
  unfolding decode_try_def
  by (rule join_chr_filter) (rule binary_chars, rule binary_classify)

lemma decode_message_eq:
  "decode_message sig = map bin_value (filter (\<lambda>c. length c = 8) (chars (classify sig)))"
  by (simp add: decode_message_def decode_try_Inr)

lemma div8_step: "8 \<le> (n::nat) \<Longrightarrow> n div 8 = Suc ((n - 8) div 8)"
proof -
  assume "8 \<le> n"
  then have "n = (n - 8) + 8" by simp
  then have "n div 8 = ((n - 8) + 8) div 8" by simp
  also have "\<dots> = Suc ((n - 8) div 8)" by simp
  finally show ?thesis .
qed

lemma complete_groups_count:
  "length (filter (\<lambda>c. length c = 8) (chars bits)) = length bits div 8"
proof (induction bits rule: length_induct)
  case (1 bits)
  show ?case
  proof (cases "length bits < 8")
    case True
    show ?thesis
    proof (cases "bits = []")
      case True
      then show ?thesis by (simp add: chars_Nil)
    next
      case False
      with \<open>length bits < 8\<close> show ?thesis by (simp add: chars_short)
    qed
  next
    case False
    then have ne: "bits \<noteq> []" and ge: "8 \<le> length bits" by auto
    have "length (drop 8 bits) < length bits" using ge by simp
    with 1 have ih: "length (filter (\<lambda>c. length c = 8) (chars (drop 8 bits))) = length (drop 8 bits) div 8"
      by blast
    have t: "length (take 8 bits) = 8" using ge by simp
    have "length (filter (\<lambda>c. length c = 8) (chars bits))
        = Suc (length (filter (\<lambda>c. length c = 8) (chars (drop 8 bits))))"
      by (subst chars_rec [OF ne]) (use ge in simp)
    also have "\<dots> = Suc ((length bits - 8) div 8)" by (simp only: ih length_drop)
    also have "\<dots> = length bits div 8" by (rule div8_step [OF ge, symmetric])
    finally show ?thesis .
  qed
qed


lemma complete_groups_tail:
  "length b mod 8 = 0 \<Longrightarrow> length t < 8 \<Longrightarrow>
   filter (\<lambda>c. length c = 8) (chars (b @ t)) = filter (\<lambda>c. length c = 8) (chars b)"
proof (induction b rule: length_induct)
  case (1 b)
  show ?case
  proof (cases "b = []")
    case True
    show ?thesis
    proof (cases "t = []")
      case True
      with \<open>b = []\<close> show ?thesis by simp
    next
      case False
      with \<open>b = []\<close> 1(3) show ?thesis by (simp add: chars_short chars_Nil)
    qed
  next
    case False
    have len: "8 \<le> length b"
    proof (rule ccontr)
      assume "\<not> 8 \<le> length b"
      then have "length b mod 8 = length b" by simp
      with 1(2) False show False by simp
    qed
    have l8: "length (take 8 b) = 8" using len by simp
    have "length b mod 8 = (length b - 8) mod 8" using len by (rule le_mod_geq)
    then have m0: "length (drop 8 b) mod 8 = 0" using 1(2) by (simp only: length_drop)
    have lt: "length (drop 8 b) < length b" using len by simp
    have ih: "filter (\<lambda>c. length c = 8) (chars (drop 8 b @ t))
        = filter (\<lambda>c. length c = 8) (chars (drop 8 b))"
      by (rule 1(1) [rule_format, OF lt m0 1(3)])
    have "b @ t = take 8 b @ (drop 8 b @ t)" by simp
    then have "chars (b @ t) = chars (take 8 b @ (drop 8 b @ t))" by (rule arg_cong)
    also have "\<dots> = take 8 b # chars (drop 8 b @ t)" by (rule chars_append8 [OF l8])
    finally have c1: "chars (b @ t) = take 8 b # chars (drop 8 b @ t)" .
    have c2: "chars b = take 8 b # chars (drop 8 b)"
      by (rule chars_rec [OF False])
    show ?thesis by (simp only: c1 c2 filter.simps ih)
  qed
qed

lemma classify_append: "classify (a @ b) = classify a @ classify b"
  by (simp add: classify_def)

lemma length_classify: "length (classify sig) = length sig"
  by (simp add: classify_def)

lemma decode_message_tail:
  "length xs mod 8 = 0 \<Longrightarrow> length t < 8 \<Longrightarrow> decode_message (xs @ t) = decode_message xs"
  by (simp add: decode_message_eq classify_append complete_groups_tail length_classify)

lemma length_decode_message: "length (decode_message sig) = length sig div 8"
  by (simp add: decode_message_eq complete_groups_count length_classify)

subsection \<open>\<open>format(n, "08b")\<close> and the way back\<close>

lemma binary_bin_digits: "binary (bin_digits n)"
proof (induction n rule: bin_digits.induct)
  case (1 n)
  show ?case
  proof (cases "n < 2")
    case True
    then show ?thesis by (subst bin_digits.simps) simp
  next
    case False
    with 1 have "binary (bin_digits (n div 2))" by simp
    with False show ?thesis by (subst bin_digits.simps) simp
  qed
qed

lemma bin_value_snoc:
  "bin_value (ds @ [d]) = 2 * bin_value ds + (if d = CHR ''1'' then 1 else 0)"
  by (simp add: bin_value_def)

lemma bin_value_bin_digits: "bin_value (bin_digits n) = n"
proof (induction n rule: bin_digits.induct)
  case (1 n)
  show ?case
  proof (cases "n < 2")
    case True
    then have "n = 0 \<or> n = 1" by auto
    then show ?thesis
      by (subst bin_digits.simps) (auto simp: bin_value_def)
  next
    case False
    with 1 have ih: "bin_value (bin_digits (n div 2)) = n div 2" by simp
    have "bin_value (bin_digits n) = 2 * (n div 2) + (if n mod 2 = 1 then 1 else 0)"
      using False by (subst bin_digits.simps) (simp add: bin_value_snoc ih)
    also have "\<dots> = 2 * (n div 2) + n mod 2" by (cases "n mod 2 = 1") auto
    also have "\<dots> = n" by (rule mult_div_mod_eq)
    finally show ?thesis .
  qed
qed

lemma length_bin_digits: "n < 2 ^ Suc j \<Longrightarrow> length (bin_digits n) \<le> Suc j"
proof (induction j arbitrary: n)
  case 0
  then have "n < 2" by simp
  then show ?case by (subst bin_digits.simps) simp
next
  case (Suc j)
  show ?case
  proof (cases "n < 2")
    case True
    then show ?thesis by (subst bin_digits.simps) simp
  next
    case False
    from Suc.prems have "n < 2 ^ Suc j * 2" by (simp add: mult.commute)
    then have "n div 2 < 2 ^ Suc j" by (rule less_mult_imp_div_less)
    then have "length (bin_digits (n div 2)) \<le> Suc j" by (rule Suc.IH)
    with False show ?thesis by (subst bin_digits.simps) simp
  qed
qed

lemma bin_digits_nonempty: "bin_digits n \<noteq> []"
  by (subst bin_digits.simps) simp

lemma length_format_08b: "n < 256 \<Longrightarrow> length (format_08b n) = 8"
proof -
  assume "n < 256"
  then have "n < 2 ^ Suc 7" by simp
  then have "length (bin_digits n) \<le> Suc 7" by (rule length_bin_digits)
  then show ?thesis by (simp add: format_08b_def)
qed

lemma binary_replicate: "binary (replicate m CHR ''0'')"
  by (simp add: binary_def list_all_iff)

lemma binary_format_08b: "binary (format_08b n)"
  by (simp add: format_08b_def binary_replicate binary_bin_digits)

lemma foldl_zeros:
  "foldl (\<lambda>acc d. 2 * acc + (if d = CHR ''1'' then 1 else 0)) (0::nat) (replicate m CHR ''0'') = 0"
  by (induction m) simp_all

lemma bin_value_format_08b: "bin_value (format_08b n) = n"
proof -
  have "bin_value (format_08b n) = bin_value (bin_digits n)"
    by (simp add: bin_value_def format_08b_def foldl_zeros)
  then show ?thesis by (simp only: bin_value_bin_digits)
qed

lemma binary_bits_of: "binary (bits_of s)"
  by (induction s) (simp_all add: bits_of_def binary_format_08b)

lemma chars_bits_of: "\<forall>c \<in> set s. c < 256 \<Longrightarrow> chars (bits_of s) = map format_08b s"
proof (induction s)
  case Nil
  show ?case by (simp add: bits_of_def chars_Nil)
next
  case (Cons c s)
  then have l: "length (format_08b c) = 8" and ih: "chars (bits_of s) = map format_08b s"
    by (simp_all add: length_format_08b)
  have "bits_of (c # s) = format_08b c @ bits_of s" by (simp add: bits_of_def)
  then show ?case by (simp only: chars_append8 [OF l] ih list.map)
qed

lemma join_chr_bits_of:
  assumes "\<forall>c \<in> set s. c < 256"
  shows "join_chr (chars (bits_of s)) = Inr s"
proof -
  have b: "\<forall>c \<in> set (map format_08b s). binary c" by (simp add: binary_format_08b)
  have f: "filter (\<lambda>c. length c = 8) (map format_08b s) = map format_08b s"
    using assms by (simp add: length_format_08b)
  have "join_chr (map format_08b s) = Inr (map bin_value (map format_08b s))"
    using join_chr_filter [OF b] by (simp only: f)
  also have "map bin_value (map format_08b s) = s"
    by (simp add: bin_value_format_08b o_def)
  finally show ?thesis by (simp only: chars_bits_of [OF assms])
qed

lemma length_encode_bits: "length (encode_bits z k bits) = length bits"
  by (induction bits arbitrary: k) (simp_all add: Let_def)

lemma classify_encode_bits:
  assumes b: "binary bits"
    and c: "\<forall>i < length bits. (\<bar>encode_bits z k bits ! i\<bar> > 15 / 10) = (bits ! i = CHR ''1'')"
  shows "classify (encode_bits z k bits) = bits"
proof (rule nth_equalityI)
  show "length (classify (encode_bits z k bits)) = length bits"
    by (simp add: length_classify length_encode_bits)
next
  fix i assume "i < length (classify (encode_bits z k bits))"
  then have i: "i < length bits" by (simp add: length_classify length_encode_bits)
  then have "bits ! i \<in> set bits" by simp
  with b have d: "bits ! i = CHR ''0'' \<or> bits ! i = CHR ''1''"
    by (simp add: binary_def list_all_iff)
  from c i have e: "(\<bar>encode_bits z k bits ! i\<bar> > 15 / 10) = (bits ! i = CHR ''1'')" by blast
  have "classify (encode_bits z k bits) ! i
      = (if \<bar>encode_bits z k bits ! i\<bar> > 15 / 10 then CHR ''1'' else CHR ''0'')"
    using i by (simp add: classify_def length_encode_bits)
  also have "\<dots> = bits ! i" using d e by auto
  finally show "classify (encode_bits z k bits) ! i = bits ! i" .
qed

subsection \<open>Totality of \<open>decode_message\<close>\<close>

lemma decode_try_total: "decode_try sig = Inr (decode_message sig)"
  by (simp add: decode_message_def decode_try_Inr)

lemma complete_group_byte:
  assumes "c \<in> set (filter (\<lambda>c. length c = 8) (chars (classify sig)))"
  shows "py_int2 c = Inr (bin_value c) \<and> bin_value c \<le> 255 \<and> py_chr (bin_value c) = Inr (bin_value c)"
proof -
  from assms have l: "length c = 8" and m: "c \<in> set (chars (classify sig))" by simp_all
  from m have b: "binary c" using binary_chars [OF binary_classify] by blast
  from l have ne: "c \<noteq> []" by auto
  have v: "bin_value c < 256" by (rule bin_value_byte [OF l])
  then have "bin_value c < 1114112" by simp
  with b ne v show ?thesis by (simp add: py_int2_def py_chr_def)
qed

lemma decode_empty_iff: "decode_message sig = [] \<longleftrightarrow> length sig < 8"
proof -
  have "decode_message sig = [] \<longleftrightarrow> length (decode_message sig) = 0" by simp
  also have "\<dots> \<longleftrightarrow> length sig div 8 = 0" by (simp only: length_decode_message)
  also have "\<dots> \<longleftrightarrow> length sig < 8" by (simp add: div_eq_0_iff)
  finally show ?thesis .
qed

lemma decode_chars_bytes: "ch \<in> set (decode_message sig) \<Longrightarrow> ch \<le> 255"
proof -
  assume "ch \<in> set (decode_message sig)"
  then obtain c where "c \<in> set (filter (\<lambda>c. length c = 8) (chars (classify sig)))" "ch = bin_value c"
    by (auto simp: decode_message_eq)
  then show ?thesis using complete_group_byte by blast
qed

lemma split_complete:
  "sig = take (length sig - length sig mod 8) sig @ drop (length sig - length sig mod 8) sig
   \<and> length (take (length sig - length sig mod 8) sig) mod 8 = 0
   \<and> length (drop (length sig - length sig mod 8) sig) < 8"
proof -
  define n where "n = length sig - length sig mod 8"
  have le: "length sig mod 8 \<le> length sig" by (rule mod_less_eq_dividend)
  have n8: "n = 8 * (length sig div 8)"
    unfolding n_def by (rule minus_mod_eq_mult_div)
  have nle: "n \<le> length sig" unfolding n_def by (rule diff_le_self)
  have "length (take n sig) = n" using nle by (simp only: length_take min_absorb2)
  then have p2: "length (take n sig) mod 8 = 0" by (simp only: n8 mod_mult_self1_is_0)
  have "length (drop n sig) = length sig - n" by (rule length_drop)
  also have "\<dots> = length sig mod 8" unfolding n_def using le by (rule diff_diff_cancel)
  also have "\<dots> < 8" by (rule mod_less_divisor) (rule zero_less_numeral)
  finally have p3: "length (drop n sig) < 8" .
  have p1: "sig = take n sig @ drop n sig" by (simp only: append_take_drop_id)
  from p1 p2 p3 show ?thesis unfolding n_def by (rule conjI [OF _ conjI])
qed

lemma demo_samples:
  "even k \<Longrightarrow> encode_bits (\<lambda>k. if odd k then 1 else 0) k bits
     = map (\<lambda>b. if b = CHR ''1'' then 3 else 2 / 10) bits"
  by (induction bits arbitrary: k) (simp_all add: Let_def gauss_def)

lemma decode_one_group: "length sig = 8 \<Longrightarrow> decode_message sig = [bin_value (classify sig)]"
proof -
  assume l: "length sig = 8"
  then have l8: "length (classify sig) = 8" by (simp only: length_classify)
  have "chars (classify sig @ []) = classify sig # chars []" by (rule chars_append8 [OF l8])
  then have "chars (classify sig) = [classify sig]" by (simp add: chars_Nil)
  then show ?thesis using l8 by (simp add: decode_message_eq)
qed


lemma chars_one_group: "length bits = 8 \<Longrightarrow> chars bits = [bits]"
proof -
  assume l8: "length bits = 8"
  have "chars (bits @ []) = bits # chars []" by (rule chars_append8 [OF l8])
  then show ?thesis by (simp add: chars_Nil)
qed

section \<open>The claims on the codec\<close>

text \<open>
  C5. For a signal whose number of samples is not a multiple of 8, \<open>decode_message\<close>
  does not raise (not even inside its \<open>try\<close> block) and returns the text of the complete
  groups of 8 samples only: the same text as for the signal cut after its last complete
  group, with one character per complete group. The trailing group is neither padded
  nor converted.
\<close>

theorem decode_discards_incomplete_tail:
  assumes "length sig mod 8 \<noteq> 0"
  shows "decode_try sig = Inr (decode_message sig)
       \<and> decode_message sig = decode_message (take (length sig - length sig mod 8) sig)
       \<and> length (decode_message sig) = length sig div 8"
proof -
  let ?n = "length sig - length sig mod 8"
  from split_complete [of sig]
  have s: "sig = take ?n sig @ drop ?n sig"
    and m: "length (take ?n sig) mod 8 = 0"
    and t: "length (drop ?n sig) < 8" by blast+
  have "decode_message (take ?n sig @ drop ?n sig) = decode_message (take ?n sig)"
    by (rule decode_message_tail [OF m t])
  then have "decode_message sig = decode_message (take ?n sig)"
    by (simp only: append_take_drop_id)
  then show ?thesis
    using decode_try_total [of sig] length_decode_message [of sig] by blast
qed

theorem decode_discards_incomplete_tail_witness:
  "length [2, 0, 0, 0, 0, 0, 1, - 3, 2, 2, 2 :: real] mod 8 \<noteq> 0
   \<and> decode_message [2, 0, 0, 0, 0, 0, 1, - 3, 2, 2, 2] = [129]
   \<and> decode_try [2, 0, 0, 0, 0, 0, 1, - 3, 2, 2, 2] = Inr [129]"
  using decode_discards_incomplete_tail [of "[2, 0, 0, 0, 0, 0, 1, - 3, 2, 2, 2]"]
  by (simp add: decode_one_group classify_def bin_value_def)

text \<open>
  C10. \<open>decode_message\<close> is a function of the signal. Its \<open>try\<close> block always
  returns: every complete group of 8 classified bits converts to a number in 0..255,
  which \<open>chr\<close> accepts. The result has one character per complete group, and it is empty
  exactly for a signal of fewer than 8 samples.
\<close>

theorem decode_total:
  "decode_try sig = Inr (decode_message sig)
   \<and> length (decode_message sig) = length sig div 8
   \<and> (\<forall>c \<in> set (filter (\<lambda>c. length c = 8) (chars (classify sig))).
        py_int2 c = Inr (bin_value c) \<and> bin_value c \<le> 255
        \<and> py_chr (bin_value c) = Inr (bin_value c))
   \<and> (decode_message sig = [] \<longleftrightarrow> length sig < 8)"
  using decode_try_total [of sig] length_decode_message [of sig]
    complete_group_byte [of _ sig] decode_empty_iff [of sig]
  by blast

theorem decode_total_witness:
  "decode_try [2, 0, 0, 0, 0, 0, 1, - 3] = Inr [129]
   \<and> filter (\<lambda>c. length c = 8) (chars (classify [2, 0, 0, 0, 0, 0, 1, - 3])) = [''10000001'']
   \<and> py_int2 ''10000001'' = Inr 129 \<and> py_chr 129 = Inr 129
   \<and> decode_message [2, 0, 0, 0, 0, 0, 1, - 3] \<noteq> []"
  using decode_total [of "[2, 0, 0, 0, 0, 0, 1, - 3]"]
  by (simp add: decode_one_group chars_one_group classify_def bin_value_def)

text \<open>
  C7, as stated, fails. The claim takes the empty text as the failure result and says
  that \<open>decode_message\<close> gives it exactly when a complete group converts to a value
  that \<open>chr\<close> rejects. For the signal of the single sample 2 the result is empty although
  there is no complete group at all.
\<close>

theorem decode_fails_exactly_out_of_range_counterexample:
  "\<not> (decode_message [2] = [] \<longleftrightarrow>
        (\<exists>c \<in> set (filter (\<lambda>c. length c = 8) (chars (classify [2]))).
           \<exists>n. py_int2 c = Inr n \<and> py_chr n = Inl ValueError))"
proof -
  have "decode_message [2] = []" by (simp add: decode_empty_iff)
  moreover have "filter (\<lambda>c. length c = 8) (chars (classify [2])) = []"
    by (simp add: classify_def chars_short)
  ultimately show ?thesis by simp
qed

text \<open>
  C7, amended. \<open>decode_message\<close> returns the empty text exactly when a complete group
  converts to a value that \<open>chr\<close> rejects or the signal has fewer than 8 samples. The
  first case cannot occur: no complete group converts to such a value, and the
  \<open>try\<close> block never raises.
\<close>

theorem decode_empty_result:
  "(decode_message sig = [] \<longleftrightarrow>
      (\<exists>c \<in> set (filter (\<lambda>c. length c = 8) (chars (classify sig))).
         \<exists>n. py_int2 c = Inr n \<and> py_chr n = Inl ValueError)
      \<or> length sig < 8)
   \<and> \<not> (\<exists>c \<in> set (filter (\<lambda>c. length c = 8) (chars (classify sig))).
         \<exists>n. py_int2 c = Inr n \<and> py_chr n = Inl ValueError)
   \<and> (\<forall>e. decode_try sig \<noteq> Inl e)"
proof -
  have no: "\<not> (\<exists>c \<in> set (filter (\<lambda>c. length c = 8) (chars (classify sig))).
         \<exists>n. py_int2 c = Inr n \<and> py_chr n = Inl ValueError)"
  proof
    assume "\<exists>c \<in> set (filter (\<lambda>c. length c = 8) (chars (classify sig))).
         \<exists>n. py_int2 c = Inr n \<and> py_chr n = Inl ValueError"
    then obtain c n where c: "c \<in> set (filter (\<lambda>c. length c = 8) (chars (classify sig)))"
      and n: "py_int2 c = Inr n" "py_chr n = Inl ValueError" by blast
    from complete_group_byte [OF c] n show False by simp
  qed
  have "\<forall>e. decode_try sig \<noteq> Inl e" by (simp add: decode_try_total)
  with no decode_empty_iff [of sig] show ?thesis by blast
qed

theorem decode_empty_result_witness:
  "decode_message [2] = [] \<and> length [2 :: real] < 8
   \<and> decode_message [2, 0, 0, 0, 0, 0, 1, - 3] = [129]
   \<and> py_int2 ''10000001'' = Inr 129 \<and> py_chr 129 = Inr 129
   \<and> decode_try [2, 0, 0, 0, 0, 0, 1, - 3] = Inr [129]"
proof -
  have d: "decode_message [2, 0, 0, 0, 0, 0, 1, - 3] = [129]"
    by (simp add: decode_one_group classify_def bin_value_def)
  have i: "py_int2 ''10000001'' = Inr 129" "py_chr 129 = Inr 129"
    by (simp_all add: py_int2_def py_chr_def binary_def bin_value_def)
  from decode_empty_result [of "[2]"] have e: "decode_message [2] = []" by simp
  from decode_empty_result [of "[2, 0, 0, 0, 0, 0, 1, - 3]"]
  have "\<forall>e. decode_try [2, 0, 0, 0, 0, 0, 1, - 3] \<noteq> Inl e" by blast
  then have "decode_try [2, 0, 0, 0, 0, 0, 1, - 3] = Inr [129]"
    using d by (cases "decode_try [2, 0, 0, 0, 0, 0, 1, - 3]") (simp_all add: decode_message_def)
  with e d i show ?thesis by simp
qed

text \<open>
  C2. Let the text \<open>str(m)\<close> of a message consist of printable ASCII characters, and
  let every sample of \<open>encode_message(m)\<close> be classified to the bit it was built from
  (its absolute value exceeds 1.5 exactly for a bit 1). Then \<open>decode_message\<close> returns
  \<open>str(m)\<close>; hence, where \<open>ast.literal_eval\<close> reads \<open>m\<close> back from its text, it reads
  \<open>m\<close>, with its type and its sender, from the decoded signal.
\<close>

theorem codec_round_trip:
  assumes ascii: "\<forall>c \<in> set (py_str B m). 32 \<le> c \<and> c \<le> 126"
    and classified: "\<forall>i < length (bits_of (py_str B m)).
        (\<bar>encode_message B z m ! i\<bar> > 15 / 10) = (bits_of (py_str B m) ! i = CHR ''1'')"
  shows "decode_message (encode_message B z m) = py_str B m
       \<and> (literal_eval B (py_str B m) = Inr m \<longrightarrow>
            literal_eval B (decode_message (encode_message B z m)) = Inr m)"
proof -
  let ?bits = "bits_of (py_str B m)"
  from ascii have small: "\<forall>c \<in> set (py_str B m). c < 256" by auto
  from classified have "\<forall>i < length ?bits.
      (\<bar>encode_bits z 0 ?bits ! i\<bar> > 15 / 10) = (?bits ! i = CHR ''1'')"
    by (simp only: encode_message_def)
  with binary_bits_of have "classify (encode_bits z 0 ?bits) = ?bits"
    by (rule classify_encode_bits)
  then have "decode_try (encode_message B z m) = join_chr (chars ?bits)"
    by (simp only: decode_try_def encode_message_def)
  also have "\<dots> = Inr (py_str B m)" by (rule join_chr_bits_of [OF small])
  finally have "decode_message (encode_message B z m) = py_str B m"
    by (simp add: decode_message_def)
  then show ?thesis by simp
qed

lemma demo_classified:
  "\<forall>i < length bits.
     (\<bar>encode_bits (normals demo_draws) 0 bits ! i\<bar> > 15 / 10) = (bits ! i = CHR ''1'')"
proof -
  have "encode_bits (normals demo_draws) 0 bits
      = map (\<lambda>b. if b = CHR ''1'' then 3 else 2 / 10) bits"
    unfolding demo_draws_def by (simp add: demo_samples)
  then show ?thesis by simp
qed

lemma demo_str_emergency_ascii:
  "\<forall>c \<in> set (demo_str (emergency_msg (py ''CarA''))). 32 \<le> c \<and> c \<le> 126"
  by (simp add: demo_str_def emergency_msg_def py_def)

theorem codec_round_trip_witness:
  "list_all (\<lambda>c. 32 \<le> c \<and> c \<le> 126) (py_str demo_builtins (emergency_msg (py ''CarA'')))
   \<and> decode_message (encode_message demo_builtins (normals demo_draws) (emergency_msg (py ''CarA'')))
       = demo_str (emergency_msg (py ''CarA''))
   \<and> literal_eval demo_builtins
         (decode_message (encode_message demo_builtins (normals demo_draws) (emergency_msg (py ''CarA''))))
       = Inr (emergency_msg (py ''CarA''))"
proof -
  have s: "py_str demo_builtins = demo_str" by (simp add: demo_builtins_def)
  have a: "\<forall>c \<in> set (py_str demo_builtins (emergency_msg (py ''CarA''))). 32 \<le> c \<and> c \<le> 126"
    unfolding s by (rule demo_str_emergency_ascii)
  have c: "\<forall>i < length (bits_of (py_str demo_builtins (emergency_msg (py ''CarA'')))).
      (\<bar>encode_message demo_builtins (normals demo_draws) (emergency_msg (py ''CarA'')) ! i\<bar> > 15 / 10)
      = (bits_of (py_str demo_builtins (emergency_msg (py ''CarA''))) ! i = CHR ''1'')"
    unfolding encode_message_def by (rule demo_classified)
  have l: "literal_eval demo_builtins (py_str demo_builtins (emergency_msg (py ''CarA'')))
      = Inr (emergency_msg (py ''CarA''))"
    by (simp add: demo_builtins_def demo_literal_eval_def)
  from codec_round_trip [OF a c] a l show ?thesis by (simp add: s list_all_iff)
qed

section \<open>The claims on the sensors\<close>

lemma speed_update_nonneg: "0 \<le> speed (update brake r s)"
  by (simp add: update_def Let_def)

lemma speed_updates_nonneg: "0 \<le> speed s \<Longrightarrow> 0 \<le> speed (updates calls s)"
proof (induction calls arbitrary: s)
  case Nil
  then show ?case by simp
next
  case (Cons call calls)
  obtain brake r where call: "call = (brake, r)" by (cases call)
  have "0 \<le> speed (update brake r s)" by (rule speed_update_nonneg)
  then have "0 \<le> speed (updates calls (update brake r s))" by (rule Cons.IH)
  then show ?case by (simp add: call)
qed

text \<open>
  C3. From a state with a speed of at least 0, the speed is at least 0 after every call
  of a sequence of calls of \<open>update\<close>, whatever the arguments and the draws; each call
  sets the speed to \<open>max(0, speed + accel * 0.1)\<close> with the new acceleration.
\<close>

theorem speed_never_negative:
  assumes "0 \<le> speed s"
  shows "(\<forall>k \<le> length calls. 0 \<le> speed (updates (take k calls) s))
       \<and> speed (update brake r s) = max 0 (speed s + accel (update brake r s) * (1 / 10))"
proof -
  have "\<forall>k \<le> length calls. 0 \<le> speed (updates (take k calls) s)"
    using assms by (simp add: speed_updates_nonneg)
  moreover have "speed (update brake r s) = max 0 (speed s + accel (update brake r s) * (1 / 10))"
    by (simp add: update_def Let_def)
  ultimately show ?thesis by simp
qed

theorem speed_never_negative_witness:
  "0 \<le> speed ((init_sensors (py ''CarA'')) \<lparr>speed := 1 / 2\<rparr>)
   \<and> 0 \<le> speed (updates (take 1 [(True, 0), (False, 0)]) ((init_sensors (py ''CarA'')) \<lparr>speed := 1 / 2\<rparr>))
   \<and> 0 \<le> speed (updates (take 2 [(True, 0), (False, 0)]) ((init_sensors (py ''CarA'')) \<lparr>speed := 1 / 2\<rparr>))
   \<and> speed (update True 0 ((init_sensors (py ''CarA'')) \<lparr>speed := 1 / 2\<rparr>)) = 0"
proof -
  let ?s = "(init_sensors (py ''CarA'')) \<lparr>speed := 1 / 2\<rparr>"
  let ?calls = "[(True, 0), (False, 0 :: real)]"
  have s: "0 \<le> speed ?s" by simp
  from speed_never_negative [OF s, of ?calls True 0]
  have a: "\<forall>k \<le> length ?calls. 0 \<le> speed (updates (take k ?calls) ?s)"
    and b: "speed (update True 0 ?s) = max 0 (speed ?s + accel (update True 0 ?s) * (1 / 10))"
    by blast+
  have a1: "0 \<le> speed (updates (take 1 ?calls) ?s)"
    using a [rule_format, of 1] by simp
  have a2: "0 \<le> speed (updates (take 2 ?calls) ?s)"
    using a [rule_format, of 2] by simp
  from b have "speed (update True 0 ?s) = 0"
    by (simp add: init_sensors_def update_def Let_def)
  with s a1 a2 show ?thesis by blast
qed

text \<open>
  C4. After \<open>update(brake=True)\<close> the braking flag is set and the acceleration is -8.
  After \<open>update(brake=False)\<close> the flag is cleared and the acceleration is the drawn
  value \<open>random.uniform(-0.5, 0.5)\<close>, which lies between -0.5 and 0.5 for a value of
  \<open>random.random()\<close> in the range from 0 to 1.
\<close>

theorem update_braking_state:
  "braking (update True r s) \<and> accel (update True r s) = - 8
   \<and> \<not> braking (update False r s)
   \<and> accel (update False r s) = uniform (- (5 / 10)) (5 / 10) r
   \<and> (0 \<le> r \<and> r < 1 \<longrightarrow>
        - (5 / 10) \<le> accel (update False r s) \<and> accel (update False r s) \<le> 5 / 10)"
  by (simp add: update_def Let_def uniform_def)

theorem update_braking_state_witness:
  "(0 :: real) \<le> 1 / 4 \<and> (1 / 4 :: real) < 1
   \<and> accel (update False (1 / 4) (init_sensors (py ''CarA''))) = - (1 / 4)
   \<and> \<not> braking (update False (1 / 4) (init_sensors (py ''CarA'')))
   \<and> braking (update True (1 / 4) (init_sensors (py ''CarA'')))
   \<and> accel (update True (1 / 4) (init_sensors (py ''CarA''))) = - 8"
  using update_braking_state [of "1 / 4" "init_sensors (py ''CarA'')"]
  by (simp add: uniform_def)

section \<open>The claim on the channel\<close>

lemma q_transmit: "q (transmit m ch) = q ch @ [m]"
  by (simp add: transmit_def)




section \<open>Lemmas on the dispatcher and the listener\<close>

lemma decode_demo_signal:
  assumes "\<forall>c \<in> set s. c < 256"
  shows "decode_message (demo_signal s) = s"
proof -
  have "classify (encode_bits (normals demo_draws) 0 (bits_of s)) = bits_of s"
    using binary_bits_of demo_classified by (rule classify_encode_bits)
  then have "decode_try (demo_signal s) = join_chr (chars (bits_of s))"
    by (simp only: decode_try_def demo_signal_def)
  also have "\<dots> = Inr s" by (rule join_chr_bits_of [OF assms])
  finally show ?thesis by (simp add: decode_message_def)
qed

lemma emergency_brake_eq:
  "emergency_brake B d (v, ch)
   = (v\<lparr>sensors := update True (uniform01 d) (sensors v)\<rparr>,
      transmit (encode_message B (normals d) (emergency_msg (vehicle_name v))) ch)"
  by (simp add: emergency_brake_def broadcast_def Let_def)

lemma texts_distinct:
  "py ''EMERGENCY_BRAKE'' \<noteq> py ''STATUS''" "py ''STATUS'' \<noteq> py ''EMERGENCY_BRAKE''"
  "py ''from'' \<noteq> py ''type''" "py ''type'' \<noteq> py ''from''"
  by (simp_all add: py_def)

lemma process_emergency:
  assumes "dict_get msg (K ''type'') = Some (K ''EMERGENCY_BRAKE'')"
    and "dict_get msg (K ''from'') = Some sender"
    and "py_print B [PStr (vehicle_name (fst w)), sender, PStr (strftime d)] = None"
  shows "process_message B d msg w = Done (emergency_brake B d w)"
  using assms by (simp add: process_message_def subscript_def dict_get_def texts_distinct)


lemma process_raised_state: "process_message B d msg w = Raised e w' \<Longrightarrow> w' = w"
  by (auto simp: process_message_def split: option.splits if_splits sum.splits)

lemma listen_body_Done: "\<exists>w'. listen_body B d w = Done w'"
proof (cases w)
  case (Pair v ch)
  show ?thesis
  proof (cases "q ch")
    case Nil
    then show ?thesis by (simp add: Pair listen_body_def receive_def)
  next
    case (Cons signal rest)
    show ?thesis
    proof (cases "listen_try B d (decode_message signal) (v, ch\<lparr>q := rest\<rparr>)")
      case (Done w')
      then show ?thesis by (simp add: Pair Cons listen_body_def receive_def Let_def)
    next
      case (Raised e w')
      then show ?thesis by (simp add: Pair Cons listen_body_def receive_def Let_def)
    qed
  qed
qed

lemma listen_Done: "\<exists>w'. listen B ds env n w = Done w'"
proof (induction n arbitrary: ds env w)
  case 0
  show ?case by simp
next
  case (Suc n)
  obtain w1 where b: "listen_body B (ds 0) w = Done w1" using listen_body_Done by blast
  from Suc [of "\<lambda>i. ds (Suc i)" "\<lambda>i. env (Suc i)" "env 0 w1"]
  show ?case by (simp add: b)
qed

lemma listen_body_dispatch:
  assumes "q ch = signal # rest" "decode_message signal \<noteq> []"
    and "literal_eval B (decode_message signal) = Inr (PDict items)"
  shows "listen_body B d (v, ch)
       = (case process_message B d items (v, ch\<lparr>q := rest\<rparr>) of
            Raised e w' \<Rightarrow> Done w' | Done w' \<Rightarrow> Done w')"
  using assms by (simp add: listen_body_def receive_def Let_def listen_try_def)

section \<open>The claims on the dispatcher and the listener\<close>


lemma demo_encode: "encode_message demo_builtins (normals demo_draws) m = demo_signal (demo_str m)"
  by (simp add: encode_message_def demo_signal_def demo_builtins_def)


lemma demo_print_plain:
  "py_print demo_builtins [PStr (vehicle_name carB), K ''CarA'', PStr (strftime demo_draws)] = None"
  "py_print demo_builtins [PStr (vehicle_name carB), K ''CarB'', PStr (strftime demo_draws)] = None"
  by (simp_all add: demo_builtins_def demo_print_def demo_draws_def carB_def init_vehicle_def py_def)


lemma demo_emergency_brake:
  "emergency_brake demo_builtins demo_draws (carB, \<lparr>q = []\<rparr>)
   = (carB\<lparr>sensors := (sensors carB)\<lparr>speed := 121 / 5, accel := - 8, braking := True\<rparr>\<rparr>,
      \<lparr>q = [demo_signal (demo_str (emergency_msg (py ''CarB'')))]\<rparr>)"
  by (simp add: emergency_brake_eq demo_encode transmit_def carB_def init_vehicle_def
      init_sensors_def update_def Let_def)






text \<open>
  C9, as stated, fails. The dict \<open>{'type': 'EMERGENCY_BRAKE'}\<close> has the type
  \<open>EMERGENCY_BRAKE\<close>, and \<open>process_message\<close> raises \<open>KeyError\<close> on it, at the
  subscript \<open>msg['from']\<close> of its \<open>print\<close>, before it calls \<open>emergency_brake\<close>: the
  vehicle and the channel stay as they were.
\<close>

theorem dispatch_every_emergency_dict_counterexample:
  "dict_get [(K ''type'', K ''EMERGENCY_BRAKE'')] (K ''type'') = Some (K ''EMERGENCY_BRAKE'')
   \<and> process_message demo_builtins demo_draws [(K ''type'', K ''EMERGENCY_BRAKE'')] (carB, empty_channel)
       = Raised KeyError (carB, empty_channel)
   \<and> process_message demo_builtins demo_draws [(K ''type'', K ''EMERGENCY_BRAKE'')] (carB, empty_channel)
       \<noteq> Done (emergency_brake demo_builtins demo_draws (carB, empty_channel))"
  by (simp add: process_message_def dict_get_def subscript_def texts_distinct)

text \<open>
  C9, amended. The dispatcher never compares the sender of a message with the name of
  the listening vehicle. For every dict of type \<open>EMERGENCY_BRAKE\<close> that has an entry
  \<open>from\<close>, whatever its value, and for which the line of the dispatcher is printed
  without an exception, \<open>process_message\<close> calls \<open>emergency_brake\<close> of the listening
  vehicle. So it does for the vehicle's own emergency message: the vehicle brakes again
  and appends a further emergency message of its own to the queue.
\<close>

theorem own_emergency_rebroadcast:
  assumes "dict_get msg (K ''type'') = Some (K ''EMERGENCY_BRAKE'')"
    and "dict_get msg (K ''from'') = Some sender"
    and "py_print B [PStr (vehicle_name v), sender, PStr (strftime d)] = None"
  shows "process_message B d msg (v, ch) = Done (emergency_brake B d (v, ch))
       \<and> (py_print B [PStr (vehicle_name v), PStr (vehicle_name v), PStr (strftime d)] = None \<longrightarrow>
            process_message B d
              [(K ''from'', PStr (vehicle_name v)), (K ''type'', K ''EMERGENCY_BRAKE'')] (v, ch)
            = Done (emergency_brake B d (v, ch)))
       \<and> q (snd (emergency_brake B d (v, ch)))
           = q ch @ [encode_message B (normals d) (emergency_msg (vehicle_name v))]
       \<and> braking (sensors (fst (emergency_brake B d (v, ch))))"
proof -
  have any: "process_message B d msg (v, ch) = Done (emergency_brake B d (v, ch))"
    by (rule process_emergency [OF assms(1,2)]) (simp add: assms(3))
  have own: "py_print B [PStr (vehicle_name v), PStr (vehicle_name v), PStr (strftime d)] = None \<longrightarrow>
      process_message B d
        [(K ''from'', PStr (vehicle_name v)), (K ''type'', K ''EMERGENCY_BRAKE'')] (v, ch)
      = Done (emergency_brake B d (v, ch))"
  proof
    assume "py_print B [PStr (vehicle_name v), PStr (vehicle_name v), PStr (strftime d)] = None"
    then show "process_message B d
        [(K ''from'', PStr (vehicle_name v)), (K ''type'', K ''EMERGENCY_BRAKE'')] (v, ch)
      = Done (emergency_brake B d (v, ch))"
      by (intro process_emergency) (simp_all add: dict_get_def texts_distinct)
  qed
  have "braking (update True (uniform01 d) (sensors v))" by (simp add: update_def Let_def)
  with any own show ?thesis
    by (simp add: emergency_brake_eq q_transmit)
qed

theorem own_emergency_rebroadcast_witness:
  "dict_get [(K ''from'', K ''CarB''), (K ''type'', K ''EMERGENCY_BRAKE'')] (K ''type'')
     = Some (K ''EMERGENCY_BRAKE'')
   \<and> dict_get [(K ''from'', K ''CarB''), (K ''type'', K ''EMERGENCY_BRAKE'')] (K ''from'')
     = Some (PStr (vehicle_name carB))
   \<and> py_print demo_builtins [PStr (vehicle_name carB), PStr (vehicle_name carB), PStr (strftime demo_draws)]
     = None
   \<and> process_message demo_builtins demo_draws
        [(K ''from'', K ''CarB''), (K ''type'', K ''EMERGENCY_BRAKE'')] (carB, \<lparr>q = []\<rparr>)
     = Done (carB\<lparr>sensors := (sensors carB)\<lparr>speed := 121 / 5, accel := - 8, braking := True\<rparr>\<rparr>,
             \<lparr>q = [demo_signal (demo_str (emergency_msg (py ''CarB'')))]\<rparr>)"
proof -
  let ?items = "[(K ''from'', K ''CarB''), (K ''type'', K ''EMERGENCY_BRAKE'')]"
  have n: "vehicle_name carB = py ''CarB''" by (simp add: carB_def init_vehicle_def)
  have t: "dict_get ?items (K ''type'') = Some (K ''EMERGENCY_BRAKE'')"
    by (simp add: dict_get_def texts_distinct)
  have f: "dict_get ?items (K ''from'') = Some (PStr (vehicle_name carB))"
    by (simp add: dict_get_def n)
  have pr: "py_print demo_builtins [PStr (vehicle_name carB), PStr (vehicle_name carB), PStr (strftime demo_draws)]
      = None"
    using demo_print_plain(2) by (simp only: n)
  from own_emergency_rebroadcast [OF t f pr, of "\<lparr>q = []\<rparr>"]
  have "process_message demo_builtins demo_draws ?items (carB, \<lparr>q = []\<rparr>)
      = Done (emergency_brake demo_builtins demo_draws (carB, \<lparr>q = []\<rparr>))"
    by blast
  then show ?thesis using t f pr by (simp add: demo_emergency_brake)
qed

lemma listen_body_empty: "q ch = [] \<Longrightarrow> listen_body B d (v, ch) = Done (v, ch)"
  by (simp add: listen_body_def receive_def)

lemma listen_body_decode_failure:
  "q ch = signal # rest \<Longrightarrow> decode_message signal = [] \<Longrightarrow>
   listen_body B d (v, ch) = Done (v, ch\<lparr>q := rest\<rparr>)"
  by (simp add: listen_body_def receive_def)

lemma listen_body_parse_failure:
  "q ch = signal # rest \<Longrightarrow> decode_message signal \<noteq> [] \<Longrightarrow>
   literal_eval B (decode_message signal) = Inl e \<Longrightarrow>
   listen_body B d (v, ch) = Done (v, ch\<lparr>q := rest\<rparr>)"
  by (simp add: listen_body_def receive_def listen_try_def)

lemma listen_body_not_dict:
  "q ch = signal # rest \<Longrightarrow> decode_message signal \<noteq> [] \<Longrightarrow>
   literal_eval B (decode_message signal) = Inr x \<Longrightarrow> \<forall>items. x \<noteq> PDict items \<Longrightarrow>
   listen_body B d (v, ch) = Done (v, ch\<lparr>q := rest\<rparr>)"
  by (cases x) (simp_all add: listen_body_def receive_def listen_try_def)

lemma listen_body_dispatch_raises:
  assumes "q ch = signal # rest" "decode_message signal \<noteq> []"
    and "literal_eval B (decode_message signal) = Inr (PDict items)"
    and r: "process_message B d items (v, ch\<lparr>q := rest\<rparr>) = Raised e w'"
  shows "listen_body B d (v, ch) = Done (v, ch\<lparr>q := rest\<rparr>)"
proof -
  from r have "w' = (v, ch\<lparr>q := rest\<rparr>)" by (rule process_raised_state)
  with listen_body_dispatch [OF assms(1-3), of d v] r show ?thesis by simp
qed

text \<open>
  C6. One iteration of the loop of \<open>listen\<close> never raises, for every vehicle, channel
  and behaviour of \<open>ast.literal_eval\<close>, and so every number of iterations of the loop is
  completed. With an empty queue the iteration changes nothing. Otherwise it removes the
  oldest signal, and nothing else changes when the signal decodes to the empty text,
  when parsing the text raises, when the parsed value is no dict, and when
  \<open>process_message\<close> raises.
\<close>

theorem listener_swallows_errors:
  "(\<exists>w'. listen_body B d w = Done w')
   \<and> (\<exists>w'. listen B ds env n w = Done w')
   \<and> (q ch = [] \<longrightarrow> listen_body B d (v, ch) = Done (v, ch))
   \<and> (q ch = signal # rest \<and> decode_message signal = [] \<longrightarrow>
        listen_body B d (v, ch) = Done (v, ch\<lparr>q := rest\<rparr>))
   \<and> (q ch = signal # rest \<and> decode_message signal \<noteq> []
        \<and> literal_eval B (decode_message signal) = Inl e \<longrightarrow>
        listen_body B d (v, ch) = Done (v, ch\<lparr>q := rest\<rparr>))
   \<and> (q ch = signal # rest \<and> decode_message signal \<noteq> []
        \<and> literal_eval B (decode_message signal) = Inr x \<and> (\<forall>items. x \<noteq> PDict items) \<longrightarrow>
        listen_body B d (v, ch) = Done (v, ch\<lparr>q := rest\<rparr>))
   \<and> (q ch = signal # rest \<and> decode_message signal \<noteq> []
        \<and> literal_eval B (decode_message signal) = Inr (PDict items)
        \<and> process_message B d items (v, ch\<lparr>q := rest\<rparr>) = Raised e' w' \<longrightarrow>
        listen_body B d (v, ch) = Done (v, ch\<lparr>q := rest\<rparr>))"
  using listen_body_Done [of B d w] listen_Done [of B ds env n w]
    listen_body_empty [of ch B d v] listen_body_decode_failure [of ch signal rest B d v]
    listen_body_parse_failure [of ch signal rest B e d v]
    listen_body_not_dict [of ch signal rest B x d v]
    listen_body_dispatch_raises [of ch signal rest B items d v e' w']
  by blast

lemma demo_texts_small:
  "\<forall>c \<in> set (py ''x''). c < 256" "\<forall>c \<in> set (py ''7''). c < 256"
  "\<forall>c \<in> set no_sender_text. c < 256"
  by (simp_all add: py_def no_sender_text_def)

lemma demo_literal_eval_values:
  "demo_literal_eval (py ''x'') = Inl SyntaxError"
  "demo_literal_eval (py ''7'') = Inr (PInt 7)"
  "demo_literal_eval no_sender_text = Inr (PDict [(K ''type'', K ''EMERGENCY_BRAKE'')])"
  by (simp_all add: demo_literal_eval_def demo_str_def emergency_msg_def no_sender_text_def
      surrogate_text_def py_def)

theorem listener_swallows_errors_witness:
  "listen_body demo_builtins demo_draws (carB, \<lparr>q = []\<rparr>) = Done (carB, \<lparr>q = []\<rparr>)
   \<and> decode_message [2] = []
   \<and> listen_body demo_builtins demo_draws (carB, \<lparr>q = [[2]]\<rparr>) = Done (carB, \<lparr>q = []\<rparr>)
   \<and> literal_eval demo_builtins (decode_message (demo_signal (py ''x''))) = Inl SyntaxError
   \<and> listen_body demo_builtins demo_draws (carB, \<lparr>q = [demo_signal (py ''x'')]\<rparr>) = Done (carB, \<lparr>q = []\<rparr>)
   \<and> literal_eval demo_builtins (decode_message (demo_signal (py ''7''))) = Inr (PInt 7)
   \<and> listen_body demo_builtins demo_draws (carB, \<lparr>q = [demo_signal (py ''7'')]\<rparr>) = Done (carB, \<lparr>q = []\<rparr>)
   \<and> process_message demo_builtins demo_draws [(K ''type'', K ''EMERGENCY_BRAKE'')] (carB, \<lparr>q = []\<rparr>)
       = Raised KeyError (carB, \<lparr>q = []\<rparr>)
   \<and> listen_body demo_builtins demo_draws (carB, \<lparr>q = [demo_signal no_sender_text]\<rparr>)
       = Done (carB, \<lparr>q = []\<rparr>)"
proof -
  have d0: "decode_message [2] = []" by (simp add: decode_empty_iff)
  have dx: "decode_message (demo_signal (py ''x'')) = py ''x''"
    and d7: "decode_message (demo_signal (py ''7'')) = py ''7''"
    and dn: "decode_message (demo_signal no_sender_text) = no_sender_text"
    by (rule decode_demo_signal, rule demo_texts_small)+
  have ne: "py ''x'' \<noteq> []" "py ''7'' \<noteq> []" "no_sender_text \<noteq> []"
    by (simp_all add: py_def no_sender_text_def)
  have le: "literal_eval demo_builtins = demo_literal_eval" by (simp add: demo_builtins_def)
  have pr: "process_message demo_builtins demo_draws [(K ''type'', K ''EMERGENCY_BRAKE'')] (carB, \<lparr>q = []\<rparr>)
       = Raised KeyError (carB, \<lparr>q = []\<rparr>)"
    by (simp add: process_message_def dict_get_def subscript_def texts_distinct)
  have a: "listen_body demo_builtins demo_draws (carB, \<lparr>q = []\<rparr>) = Done (carB, \<lparr>q = []\<rparr>)"
    using listener_swallows_errors [of demo_builtins demo_draws "(carB, \<lparr>q = []\<rparr>)" "\<lambda>_. demo_draws"
        "\<lambda>_ w. w" 0 "\<lparr>q = []\<rparr>" carB] by simp
  have b: "listen_body demo_builtins demo_draws (carB, \<lparr>q = [[2]]\<rparr>) = Done (carB, \<lparr>q = []\<rparr>)"
    using listener_swallows_errors [of demo_builtins demo_draws "(carB, \<lparr>q = []\<rparr>)" "\<lambda>_. demo_draws"
        "\<lambda>_ w. w" 0 "\<lparr>q = [[2]]\<rparr>" carB "[2]" "[]"] d0 by simp
  have c: "listen_body demo_builtins demo_draws (carB, \<lparr>q = [demo_signal (py ''x'')]\<rparr>) = Done (carB, \<lparr>q = []\<rparr>)"
    using listener_swallows_errors [of demo_builtins demo_draws "(carB, \<lparr>q = []\<rparr>)" "\<lambda>_. demo_draws"
        "\<lambda>_ w. w" 0 "\<lparr>q = [demo_signal (py ''x'')]\<rparr>" carB "demo_signal (py ''x'')" "[]" SyntaxError]
    by (simp add: dx ne le demo_literal_eval_values)
  have d: "listen_body demo_builtins demo_draws (carB, \<lparr>q = [demo_signal (py ''7'')]\<rparr>) = Done (carB, \<lparr>q = []\<rparr>)"
    using listener_swallows_errors [of demo_builtins demo_draws "(carB, \<lparr>q = []\<rparr>)" "\<lambda>_. demo_draws"
        "\<lambda>_ w. w" 0 "\<lparr>q = [demo_signal (py ''7'')]\<rparr>" carB "demo_signal (py ''7'')" "[]" _ "PInt 7"]
    by (simp add: d7 ne le demo_literal_eval_values)
  have e: "listen_body demo_builtins demo_draws (carB, \<lparr>q = [demo_signal no_sender_text]\<rparr>) = Done (carB, \<lparr>q = []\<rparr>)"
    using listener_swallows_errors [of demo_builtins demo_draws "(carB, \<lparr>q = []\<rparr>)" "\<lambda>_. demo_draws"
        "\<lambda>_ w. w" 0 "\<lparr>q = [demo_signal no_sender_text]\<rparr>" carB "demo_signal no_sender_text" "[]" _ _
        "[(K ''type'', K ''EMERGENCY_BRAKE'')]" KeyError "(carB, \<lparr>q = []\<rparr>)"] pr
    by (simp add: dn ne le demo_literal_eval_values)
  from a b c d e d0 pr show ?thesis
    by (simp add: dx d7 le demo_literal_eval_values)
qed

end
